theory Spec2Isabelle
  imports Main "HOL-Library.List_Lexorder" "HOL-Library.Multiset"
begin

section \<open>Values of the Python runtime\<close>

text \<open>
  A Python \<open>str\<close> is a sequence of Unicode code points.  Comparison of two strings
  (used by \<open>sorted\<close>) is lexicographic on code points, a proper prefix being smaller:
  the order of lists from \<open>List_Lexorder\<close>.
\<close>

type_synonym pystr = "nat list"

definition ascii :: "string \<Rightarrow> pystr" where
  "ascii s = map of_char s"

text \<open>
  What \<open>json.load\<close> returns: \<open>None\<close>, \<open>bool\<close>, \<open>int\<close>, \<open>str\<close>, \<open>list\<close> and
  \<open>dict\<close> (keys are strings, insertion order kept).  JSON numbers with a fraction or an
  exponent (Python floats) are not covered by this development.
\<close>

datatype json =
    JNull
  | JBool bool
  | JInt int
  | JStr pystr
  | JArr "json list"
  | JObj "(pystr \<times> json) list"

datatype pyerr = TypeError | AttributeError | KeyError | IndexError | OSError

text \<open>The outcome of opening a file and running \<open>json.load\<close> on it.\<close>

datatype 'a file_read = FileNotFound | JSONDecodeError | OtherReadError | Loaded 'a

text \<open>Truth value of an object in a condition (\<open>if x:\<close>).\<close>

fun truthy :: "json \<Rightarrow> bool" where
  "truthy JNull = False"
| "truthy (JBool b) = b"
| "truthy (JInt i) = (i \<noteq> 0)"
| "truthy (JStr s) = (s \<noteq> [])"
| "truthy (JArr xs) = (xs \<noteq> [])"
| "truthy (JObj kvs) = (kvs \<noteq> [])"

text \<open>
  Keys of a Python dictionary are compared by \<open>==\<close> and must be hashable: \<open>True == 1\<close> and
  \<open>False == 0\<close>, lists and dicts raise \<open>TypeError\<close> (here \<open>None\<close>).
\<close>

datatype hkey = KNone | KInt int | KStr pystr

fun hashkey :: "json \<Rightarrow> hkey option" where
  "hashkey JNull = Some KNone"
| "hashkey (JBool b) = Some (KInt (if b then 1 else 0))"
| "hashkey (JInt i) = Some (KInt i)"
| "hashkey (JStr s) = Some (KStr s)"
| "hashkey (JArr xs) = None"
| "hashkey (JObj kvs) = None"

text \<open>\<open>len(x)\<close>, \<open>x[i]\<close> for \<open>i \<ge> 0\<close>, and the items a \<open>for\<close> loop over \<open>x\<close> visits.\<close>

fun py_len :: "json \<Rightarrow> pyerr + nat" where
  "py_len (JArr xs) = Inr (length xs)"
| "py_len (JStr s) = Inr (length s)"
| "py_len (JObj kvs) = Inr (length kvs)"
| "py_len _ = Inl TypeError"

fun py_index :: "json \<Rightarrow> nat \<Rightarrow> pyerr + json" where
  "py_index (JArr xs) i = (if i < length xs then Inr (xs ! i) else Inl IndexError)"
| "py_index (JStr s) i = (if i < length s then Inr (JStr [s ! i]) else Inl IndexError)"
| "py_index (JObj kvs) i = Inl KeyError"
| "py_index _ i = Inl TypeError"

fun py_iter :: "json \<Rightarrow> pyerr + json list" where
  "py_iter (JArr xs) = Inr xs"
| "py_iter (JStr s) = Inr (map (\<lambda>c. JStr [c]) s)"
| "py_iter (JObj kvs) = Inr (map (\<lambda>kv. JStr (fst kv)) kvs)"
| "py_iter _ = Inl TypeError"

text \<open>\<open>d.get(k, default)\<close> and \<open>d[k] = v\<close> on a \<open>dict\<close>; \<open>.get\<close> on anything else raises.\<close>

definition dict_get :: "(pystr \<times> json) list \<Rightarrow> pystr \<Rightarrow> json \<Rightarrow> json" where
  "dict_get kvs k dflt = (case map_of kvs k of None \<Rightarrow> dflt | Some v \<Rightarrow> v)"

fun py_get :: "json \<Rightarrow> pystr \<Rightarrow> json \<Rightarrow> pyerr + json" where
  "py_get (JObj kvs) k dflt = Inr (dict_get kvs k dflt)"
| "py_get _ k dflt = Inl AttributeError"

fun dict_setitem :: "pystr \<Rightarrow> json \<Rightarrow> (pystr \<times> json) list \<Rightarrow> (pystr \<times> json) list" where
  "dict_setitem k v [] = [(k, v)]"
| "dict_setitem k v (kv # kvs) =
     (if fst kv = k then (k, v) # kvs else kv # dict_setitem k v kvs)"

text \<open>
  \<open>str.strip()\<close> removes leading and trailing whitespace; \<open>isspace\<close> lists the code
  points that \<open>str.isspace\<close> accepts.
\<close>

definition isspace :: "nat \<Rightarrow> bool" where
  "isspace c \<longleftrightarrow>
     (9 \<le> c \<and> c \<le> 13) \<or> (28 \<le> c \<and> c \<le> 32) \<or> c = 133 \<or> c = 160 \<or> c = 5760 \<or>
     (8192 \<le> c \<and> c \<le> 8202) \<or> c = 8232 \<or> c = 8233 \<or> c = 8239 \<or> c = 8287 \<or> c = 12288"

definition strip :: "pystr \<Rightarrow> pystr" where
  "strip s = rev (dropWhile isspace (rev (dropWhile isspace s)))"

fun py_strip :: "json \<Rightarrow> pyerr + pystr" where
  "py_strip (JStr s) = Inr (strip s)"
| "py_strip _ = Inl AttributeError"

fun py_lower :: "(pystr \<Rightarrow> pystr) \<Rightarrow> json \<Rightarrow> pyerr + pystr" where
  "py_lower lower (JStr s) = Inr (lower s)"
| "py_lower lower _ = Inl AttributeError"

text \<open>\<open>sep.join(xs)\<close>.\<close>

fun str_join :: "pystr \<Rightarrow> pystr list \<Rightarrow> pystr" where
  "str_join sep [] = []"
| "str_join sep [x] = x"
| "str_join sep (x # y # ys) = x @ sep @ str_join sep (y # ys)"

definition comma_space :: pystr where
  "comma_space = [44, 32]"

text \<open>
  \<open>str.upper\<close> and \<open>str.lower\<close> depend on the Unicode case tables, which are part of
  the interpreter; the functions below take them as a parameter.  On ASCII strings they
  are the two maps that follow, used to run the model on concrete inputs.
\<close>

definition ascii_upper :: "pystr \<Rightarrow> pystr" where
  "ascii_upper s = map (\<lambda>c. if 97 \<le> c \<and> c \<le> 122 then c - 32 else c) s"

definition ascii_lower :: "pystr \<Rightarrow> pystr" where
  "ascii_lower s = map (\<lambda>c. if 65 \<le> c \<and> c \<le> 90 then c + 32 else c) s"

section \<open>auto-sv-lookup.py\<close>

type_synonym reading_map = "hkey \<rightharpoonup> pystr list"

subsection \<open>get_han_viet_reading\<close>

definition get_han_viet_reading ::
  "(pystr \<Rightarrow> pystr) \<Rightarrow> json \<Rightarrow> reading_map \<Rightarrow> pyerr + pystr option" where
  "get_han_viet_reading upper character dictionary =
     (case hashkey character of
        None \<Rightarrow> Inl TypeError
      | Some k \<Rightarrow>
          (case dictionary k of
             None \<Rightarrow> Inr None
           | Some readings \<Rightarrow>
               if readings \<noteq> []
               then Inr (Some (str_join comma_space (map upper (sort readings))))
               else Inr None))"

text \<open>
  The lookup as the specification words it: the readings are upper-cased and the
  upper-cased forms are sorted.
\<close>

definition lookup_spec :: "(pystr \<Rightarrow> pystr) \<Rightarrow> pystr list \<Rightarrow> pystr" where
  "lookup_spec upper readings = str_join comma_space (sort (map upper readings))"

subsection \<open>load_dictionary\<close>

text \<open>
  The inner loop over \<open>definitions\<close>: \<open>readings\<close> is the accumulator.  A definition
  that is a non-empty list offers its first element; a truthy one is stripped and
  appended (\<open>.strip()\<close> on a truthy value that is not a string raises).
\<close>

fun collect_readings :: "json list \<Rightarrow> pystr list \<Rightarrow> pyerr + pystr list" where
  "collect_readings [] readings = Inr readings"
| "collect_readings (JArr (raw_reading # rest) # ds) readings =
     (if truthy raw_reading
      then (case py_strip raw_reading of
              Inl e \<Rightarrow> Inl e
            | Inr r \<Rightarrow> collect_readings ds (readings @ [r]))
      else collect_readings ds readings)"
| "collect_readings (d # ds) readings = collect_readings ds readings"

text \<open>
  One iteration of the loop over the entries.  \<open>list(set(readings))\<close> lists the distinct
  readings in an order Python does not fix: \<open>list_of_set\<close> stands for that choice.
  An empty set is falsy, and then nothing is stored.
\<close>

definition load_entry ::
  "(pystr list \<Rightarrow> pystr list) \<Rightarrow> json \<Rightarrow> reading_map \<Rightarrow> pyerr + reading_map" where
  "load_entry list_of_set entry dictionary =
     (case py_len entry of
        Inl e \<Rightarrow> Inl e
      | Inr n \<Rightarrow>
          if n < 2 then Inr dictionary
          else
            (case py_index entry 0 of
               Inl e \<Rightarrow> Inl e
             | Inr character \<Rightarrow>
                 (case py_index entry 1 of
                    Inl e \<Rightarrow> Inl e
                  | Inr definitions \<Rightarrow>
                      (case py_iter definitions of
                         Inl e \<Rightarrow> Inl e
                       | Inr ds \<Rightarrow>
                           (case collect_readings ds [] of
                              Inl e \<Rightarrow> Inl e
                            | Inr readings \<Rightarrow>
                                if readings \<noteq> []
                                then (case hashkey character of
                                        None \<Rightarrow> Inl TypeError
                                      | Some k \<Rightarrow>
                                          Inr (dictionary(k \<mapsto> list_of_set readings)))
                                else Inr dictionary)))))"

fun load_entries ::
  "(pystr list \<Rightarrow> pystr list) \<Rightarrow> json list \<Rightarrow> reading_map \<Rightarrow> pyerr + reading_map" where
  "load_entries list_of_set [] dictionary = Inr dictionary"
| "load_entries list_of_set (entry # entries) dictionary =
     (case load_entry list_of_set entry dictionary of
        Inl e \<Rightarrow> Inl e
      | Inr dictionary' \<Rightarrow> load_entries list_of_set entries dictionary')"

text \<open>
  \<open>load_dictionary\<close> returns the map, or the status of \<open>sys.exit\<close>: both handlers
  (\<open>FileNotFoundError\<close> and \<open>Exception\<close>) end the process with status 1.
\<close>

definition load_dictionary ::
  "(pystr list \<Rightarrow> pystr list) \<Rightarrow> json file_read \<Rightarrow> nat + reading_map" where
  "load_dictionary list_of_set dictionary_file =
     (case dictionary_file of
        Loaded yomichan_data \<Rightarrow>
          (case py_iter yomichan_data of
             Inl e \<Rightarrow> Inl 1
           | Inr entries \<Rightarrow>
               (case load_entries list_of_set entries Map.empty of
                  Inl e \<Rightarrow> Inl 1
                | Inr dictionary \<Rightarrow> Inr dictionary))
      | FileNotFound \<Rightarrow> Inl 1
      | _ \<Rightarrow> Inl 1)"

subsection \<open>process_kanji_file\<close>

definition key_kanji :: pystr where "key_kanji = ascii ''kanji''"
definition key_character :: pystr where "key_character = ascii ''character''"
definition key_meaning :: pystr where "key_meaning = ascii ''meaning''"

text \<open>
  The body of the loop for one \<open>kanji_entry\<close>, with the two counters as state.  The
  entry is mutated in place: the updated entry is returned.
\<close>

fun enrich_entry ::
  "(pystr \<Rightarrow> pystr) \<Rightarrow> reading_map \<Rightarrow> json \<Rightarrow> nat \<Rightarrow> nat \<Rightarrow> pyerr + (json \<times> nat \<times> nat)" where
  "enrich_entry upper hvd_dictionary (JObj fields) modified_count skipped_count =
     (let character = dict_get fields key_character JNull;
          current_meaning = dict_get fields key_meaning JNull
      in if truthy character \<and> current_meaning \<noteq> JNull
         then
           (case get_han_viet_reading upper character hvd_dictionary of
              Inl e \<Rightarrow> Inl e
            | Inr sv \<Rightarrow>
                (case sv of
                   None \<Rightarrow> Inr (JObj fields, modified_count, skipped_count + 1)
                 | Some sv_meaning \<Rightarrow>
                     if sv_meaning \<noteq> []
                     then
                       (case current_meaning of
                          JStr m \<Rightarrow>
                            Inr (JObj (dict_setitem key_meaning
                                   (JStr (if strip m \<noteq> []
                                          then sv_meaning @ comma_space @ m
                                          else sv_meaning)) fields),
                                 modified_count + 1, skipped_count)
                        | _ \<Rightarrow> Inl AttributeError)
                     else Inr (JObj fields, modified_count, skipped_count + 1)))
         else Inr (JObj fields, modified_count, skipped_count))"
| "enrich_entry upper hvd_dictionary kanji_entry modified_count skipped_count =
     Inl AttributeError"

fun enrich_loop ::
  "(pystr \<Rightarrow> pystr) \<Rightarrow> reading_map \<Rightarrow> json list \<Rightarrow> nat \<Rightarrow> nat
     \<Rightarrow> pyerr + (json list \<times> nat \<times> nat)" where
  "enrich_loop upper d [] modified_count skipped_count =
     Inr ([], modified_count, skipped_count)"
| "enrich_loop upper d (kanji_entry # rest) modified_count skipped_count =
     (case enrich_entry upper d kanji_entry modified_count skipped_count of
        Inl e \<Rightarrow> Inl e
      | Inr (kanji_entry', m, s) \<Rightarrow>
          (case enrich_loop upper d rest m s of
             Inl e \<Rightarrow> Inl e
           | Inr (rest', m', s') \<Rightarrow> Inr (kanji_entry' # rest', m', s')))"

text \<open>
  How a run of the script ends: \<open>sys.exit(status)\<close>, an exception nobody catches, the
  early \<open>return\<close> after a failed read (nothing written), or the document given to
  \<open>json.dump\<close> for the output file together with the two counters.
\<close>

datatype run = SysExit nat | Uncaught pyerr | ReturnedEarly | Wrote json nat nat

text \<open>
  \<open>kanji_list\<close> after the loop: a list holds the updated entries; any other value that
  got through the loop had no items and is the object it was.
\<close>

fun kanji_list_after :: "json \<Rightarrow> json list \<Rightarrow> json" where
  "kanji_list_after (JArr xs) entries = JArr entries"
| "kanji_list_after v entries = v"

definition process_kanji_file ::
  "(pystr \<Rightarrow> pystr) \<Rightarrow> (pystr list \<Rightarrow> pystr list) \<Rightarrow> json file_read \<Rightarrow> json file_read \<Rightarrow> run" where
  "process_kanji_file upper list_of_set dictionary_file kanji_input_file =
     (case load_dictionary list_of_set dictionary_file of
        Inl status \<Rightarrow> SysExit status
      | Inr hvd_dictionary \<Rightarrow>
          (case kanji_input_file of
             Loaded data \<Rightarrow>
               (case data of
                  JObj fields \<Rightarrow>
                    (let kanji_list = dict_get fields key_kanji (JArr [])
                     in case py_len kanji_list of
                          Inl e \<Rightarrow> Uncaught e
                        | Inr total_kanji \<Rightarrow>
                            (case py_iter kanji_list of
                               Inl e \<Rightarrow> Uncaught e
                             | Inr entries \<Rightarrow>
                                 (case enrich_loop upper hvd_dictionary entries 0 0 of
                                    Inl e \<Rightarrow> Uncaught e
                                  | Inr (entries', modified_count, skipped_count) \<Rightarrow>
                                      Wrote (JObj (dict_setitem key_kanji
                                               (kanji_list_after kanji_list entries') fields))
                                        modified_count skipped_count)))
                | _ \<Rightarrow> Uncaught AttributeError)
           | _ \<Rightarrow> ReturnedEarly))"

section \<open>split-kanji.py\<close>

definition key_category :: pystr where "key_category = ascii ''category''"

definition jlpt_keys :: "pystr list" where
  "jlpt_keys = [ascii ''jlptn5'', ascii ''jlptn4'', ascii ''jlptn3'', ascii ''jlptn2'',
                ascii ''jlptn1'']"

definition output_filenames :: "(pystr \<times> pystr) list" where
  "output_filenames =
     [(ascii ''jlptn5'', ascii ''kanji-jlpt-n5.json''),
      (ascii ''jlptn4'', ascii ''kanji-jlpt-n4.json''),
      (ascii ''jlptn3'', ascii ''kanji-jlpt-n3.json''),
      (ascii ''jlptn2'', ascii ''kanji-jlpt-n2.json''),
      (ascii ''jlptn1'', ascii ''kanji-jlpt-n1.json'')]"

text \<open>\<open>jlpt_groups\<close>: the five keys, each with the list of records appended so far.\<close>

type_synonym groups = "(pystr \<times> json list) list"

definition empty_groups :: groups where
  "empty_groups = map (\<lambda>k. (k, [])) jlpt_keys"

definition group_append :: "pystr \<Rightarrow> json \<Rightarrow> groups \<Rightarrow> groups" where
  "group_append category kanji jlpt_groups =
     map (\<lambda>(k, g). if k = category then (k, g @ [kanji]) else (k, g)) jlpt_groups"

definition group_of :: "groups \<Rightarrow> pystr \<Rightarrow> json list" where
  "group_of jlpt_groups k = (case map_of jlpt_groups k of None \<Rightarrow> [] | Some g \<Rightarrow> g)"

text \<open>\<open>kanji.get('category', '').lower()\<close>.\<close>

definition category_of :: "(pystr \<Rightarrow> pystr) \<Rightarrow> json \<Rightarrow> pyerr + pystr" where
  "category_of lower kanji =
     (case py_get kanji key_category (JStr []) of
        Inl e \<Rightarrow> Inl e
      | Inr c \<Rightarrow> py_lower lower c)"

fun group_loop :: "(pystr \<Rightarrow> pystr) \<Rightarrow> json list \<Rightarrow> groups \<Rightarrow> pyerr + groups" where
  "group_loop lower [] jlpt_groups = Inr jlpt_groups"
| "group_loop lower (kanji # rest) jlpt_groups =
     (case category_of lower kanji of
        Inl e \<Rightarrow> Inl e
      | Inr category \<Rightarrow>
          group_loop lower rest
            (if category \<in> set (map fst jlpt_groups)
             then group_append category kanji jlpt_groups
             else jlpt_groups))"

text \<open>
  How the splitter ends: an exception nobody catches, a \<open>return\<close> before any file is
  written, or the files given to \<open>json.dump\<close>, in the order they are written, each with
  its name and its document.
\<close>

datatype split_run = SplitUncaught pyerr | SplitReturned | SplitWrote "(pystr \<times> json) list"

definition split_kanji_by_jlpt_level :: "(pystr \<Rightarrow> pystr) \<Rightarrow> json file_read \<Rightarrow> split_run" where
  "split_kanji_by_jlpt_level lower input_file =
     (case input_file of
        FileNotFound \<Rightarrow> SplitReturned
      | JSONDecodeError \<Rightarrow> SplitReturned
      | OtherReadError \<Rightarrow> SplitUncaught OSError
      | Loaded data \<Rightarrow>
          (case py_get data key_kanji (JArr []) of
             Inl e \<Rightarrow> SplitUncaught e
           | Inr kanji_list \<Rightarrow>
               if \<not> truthy kanji_list then SplitReturned
               else
                 (case py_iter kanji_list of
                    Inl e \<Rightarrow> SplitUncaught e
                  | Inr records \<Rightarrow>
                      (case group_loop lower records empty_groups of
                         Inl e \<Rightarrow> SplitUncaught e
                       | Inr jlpt_groups \<Rightarrow>
                           SplitWrote
                             (map (\<lambda>(category_key, output_filename).
                                     (output_filename,
                                      JObj [(key_kanji, JArr (group_of jlpt_groups category_key))]))
                                output_filenames)))))"

definition files_written :: "split_run \<Rightarrow> (pystr \<times> json) list" where
  "files_written r = (case r of SplitWrote fs \<Rightarrow> fs | _ \<Rightarrow> [])"

section \<open>Notions used to state the properties\<close>

definition is_loaded :: "'a file_read \<Rightarrow> bool" where
  "is_loaded f = (case f of Loaded x \<Rightarrow> True | _ \<Rightarrow> False)"

text \<open>
  A record is eligible when the condition of the loop body holds for it: \<open>character\<close>
  is truthy and \<open>meaning\<close> is not \<open>None\<close>.  It has a reading when the lookup of its
  character returns a non-empty string.
\<close>

definition eligible :: "json \<Rightarrow> bool" where
  "eligible kanji_entry =
     (case kanji_entry of
        JObj fields \<Rightarrow>
          truthy (dict_get fields key_character JNull) \<and> dict_get fields key_meaning JNull \<noteq> JNull
      | _ \<Rightarrow> False)"

definition has_reading :: "(pystr \<Rightarrow> pystr) \<Rightarrow> reading_map \<Rightarrow> json \<Rightarrow> bool" where
  "has_reading upper d kanji_entry =
     (case kanji_entry of
        JObj fields \<Rightarrow>
          (case get_han_viet_reading upper (dict_get fields key_character JNull) d of
             Inr (Some sv_meaning) \<Rightarrow> sv_meaning \<noteq> []
           | _ \<Rightarrow> False)
      | _ \<Rightarrow> False)"

text \<open>
  The records of the data model: an object whose \<open>character\<close>, when present, can be a
  dictionary key (a string, in the data model) and whose \<open>meaning\<close>, when present, is
  a string or \<open>null\<close>.
\<close>

fun is_str_or_null :: "json \<Rightarrow> bool" where
  "is_str_or_null (JStr s) = True"
| "is_str_or_null JNull = True"
| "is_str_or_null _ = False"

definition kanji_record :: "json \<Rightarrow> bool" where
  "kanji_record kanji_entry =
     (case kanji_entry of
        JObj fields \<Rightarrow>
          hashkey (dict_get fields key_character JNull) \<noteq> None \<and>
          is_str_or_null (dict_get fields key_meaning JNull)
      | _ \<Rightarrow> False)"

text \<open>Concrete data for the examples: a map with two characters, and four records.\<close>

definition water_dictionary :: reading_map where
  "water_dictionary =
     Map.empty(KStr [27700] \<mapsto> [ascii ''THUY''], KStr [28779] \<mapsto> [ascii ''HOA''])"

definition water_record :: "(pystr \<times> json) list" where
  "water_record = [(key_character, JStr [27700]), (key_meaning, JStr (ascii ''water''))]"

definition fire_record :: "(pystr \<times> json) list" where
  "fire_record = [(key_character, JStr [28779]), (key_meaning, JStr [])]"

definition dragon_record :: "(pystr \<times> json) list" where
  "dragon_record = [(key_character, JStr [40845]), (key_meaning, JStr (ascii ''dragon''))]"

definition bare_record :: "(pystr \<times> json) list" where
  "bare_record = [(key_character, JStr [27700])]"

text \<open>
  The frame of the enrichment pass.  Two field lists are the same except at \<open>k\<close> when
  they have the same keys in the same positions and equal values at every key other
  than \<open>k\<close>, the values at \<open>k\<close> being related by \<open>R\<close>.  A record keeps everything but
  its \<open>meaning\<close>; the \<open>kanji\<close> array keeps its length and every record keeps its place;
  the document keeps everything but what the \<open>kanji\<close> array allows.
\<close>

definition same_fields_except ::
  "pystr \<Rightarrow> (json \<Rightarrow> json \<Rightarrow> bool) \<Rightarrow> (pystr \<times> json) list \<Rightarrow> (pystr \<times> json) list \<Rightarrow> bool" where
  "same_fields_except k R fields fields' =
     list_all2 (\<lambda>kv kv'. fst kv' = fst kv \<and>
                  (if fst kv = k then R (snd kv) (snd kv') else snd kv' = snd kv))
       fields fields'"

fun record_frame :: "json \<Rightarrow> json \<Rightarrow> bool" where
  "record_frame (JObj fields) (JObj fields') =
     same_fields_except key_meaning (\<lambda>v v'. True) fields fields'"
| "record_frame v v' = (v' = v)"

fun kanji_frame :: "json \<Rightarrow> json \<Rightarrow> bool" where
  "kanji_frame (JArr entries) (JArr entries') = list_all2 record_frame entries entries'"
| "kanji_frame v v' = (v' = v)"

fun only_meanings_changed :: "json \<Rightarrow> json \<Rightarrow> bool" where
  "only_meanings_changed (JObj fields) (JObj fields') =
     same_fields_except key_kanji kanji_frame fields fields'"
| "only_meanings_changed v v' = (v' = v)"

text \<open>A dictionary file, an input document with fields of its own, and its enrichment.\<close>

definition sample_dictionary_file :: "json file_read" where
  "sample_dictionary_file =
     Loaded (JArr [JArr [JStr [27700], JArr [JArr [JStr (ascii '' thuy '')]]]])"

definition sample_document :: json where
  "sample_document =
     JObj [(ascii ''title'', JStr (ascii ''N5'')),
           (key_kanji, JArr [JObj (water_record @ [(key_category, JStr (ascii ''jlptn5''))])])]"

definition sample_output :: json where
  "sample_output =
     JObj [(ascii ''title'', JStr (ascii ''N5'')),
           (key_kanji, JArr [JObj [(key_character, JStr [27700]),
                                   (key_meaning, JStr (ascii ''THUY, water'')),
                                   (key_category, JStr (ascii ''jlptn5''))]])]"

text \<open>
  What one entry of the dictionary file stores: the key of its character and its
  readings, following the steps of the loop body; \<open>None\<close> when the entry stores nothing
  (it is too short, it yields no reading, or it raises).  \<open>stored_readings\<close> reads the
  loaded map at a key.
\<close>

definition entry_readings :: "json \<Rightarrow> (hkey \<times> pystr list) option" where
  "entry_readings entry =
     (case py_len entry of
        Inl e \<Rightarrow> None
      | Inr n \<Rightarrow>
          if n < 2 then None
          else
            (case py_index entry 0 of
               Inl e \<Rightarrow> None
             | Inr character \<Rightarrow>
                 (case py_index entry 1 of
                    Inl e \<Rightarrow> None
                  | Inr definitions \<Rightarrow>
                      (case py_iter definitions of
                         Inl e \<Rightarrow> None
                       | Inr ds \<Rightarrow>
                           (case collect_readings ds [] of
                              Inl e \<Rightarrow> None
                            | Inr readings \<Rightarrow>
                                if readings \<noteq> []
                                then map_option (\<lambda>k. (k, readings)) (hashkey character)
                                else None)))))"

definition entry_key :: "json \<Rightarrow> hkey option" where
  "entry_key entry = map_option fst (entry_readings entry)"

definition stored_readings ::
  "(pystr list \<Rightarrow> pystr list) \<Rightarrow> json file_read \<Rightarrow> hkey \<Rightarrow> pystr list option" where
  "stored_readings list_of_set dictionary_file k =
     (case load_dictionary list_of_set dictionary_file of
        Inl status \<Rightarrow> None
      | Inr dictionary \<Rightarrow> dictionary k)"

text \<open>Three entries for the same character: readings \<open>A\<close>, \<open>B\<close>, and none.\<close>

definition entry_a :: json where
  "entry_a = JArr [JStr [27700], JArr [JArr [JStr [65]]]]"

definition entry_b :: json where
  "entry_b = JArr [JStr [27700], JArr [JArr [JStr [66]]]]"

definition entry_none :: json where
  "entry_none = JArr [JStr [27700], JArr []]"

text \<open>
  For the splitter: a record is categorised when it is an object whose \<open>category\<close>, when
  present, is a string, so that \<open>.lower()\<close> applies; it matches a key when its lower-cased
  category (the empty string when absent) is that key.
\<close>

definition categorised :: "json \<Rightarrow> bool" where
  "categorised kanji =
     (case kanji of
        JObj fields \<Rightarrow>
          (case dict_get fields key_category (JStr []) of JStr c \<Rightarrow> True | _ \<Rightarrow> False)
      | _ \<Rightarrow> False)"

definition matches :: "(pystr \<Rightarrow> pystr) \<Rightarrow> pystr \<Rightarrow> json \<Rightarrow> bool" where
  "matches lower category_key kanji \<longleftrightarrow> category_of lower kanji = Inr category_key"

text \<open>Scenario D: three records, of categories \<open>JLPTN5\<close>, \<open>jlptn3\<close> and \<open>unknown\<close>.\<close>

definition record_n5 :: json where
  "record_n5 = JObj [(key_character, JStr [27700]), (key_category, JStr (ascii ''JLPTN5''))]"

definition record_n3 :: json where
  "record_n3 = JObj [(key_character, JStr [28779]), (key_category, JStr (ascii ''jlptn3''))]"

definition record_unknown :: json where
  "record_unknown = JObj [(key_character, JStr [40845]), (key_category, JStr (ascii ''unknown''))]"

definition scenario_d :: "(pystr \<times> json) list" where
  "scenario_d = [(key_kanji, JArr [record_n5, record_n3, record_unknown])]"

section \<open>Lookup of a reading\<close>

lemma get_reading_hit:
  "hashkey character = Some k \<Longrightarrow> dictionary k = Some readings \<Longrightarrow> readings \<noteq> [] \<Longrightarrow>
   get_han_viet_reading upper character dictionary =
     Inr (Some (str_join comma_space (map upper (sort readings))))"
  by (simp add: get_han_viet_reading_def)

lemma get_reading_absent:
  "hashkey character = Some k \<Longrightarrow> dictionary k = None \<Longrightarrow>
   get_han_viet_reading upper character dictionary = Inr None"
  by (simp add: get_han_viet_reading_def)

text \<open>
  Claim C1, as the code has it.  For a hashable character (a string, in particular): when
  the map holds a non-empty list of readings for it, the lookup returns the readings
  joined by a comma and a space, each upper-cased, in the ascending lexicographic order
  of the readings as they are stored (the list is sorted first and upper-cased after);
  when the map has no entry for it, the lookup returns \<open>None\<close> and raises nothing.
\<close>

theorem lookup_formats_readings:
  assumes "hashkey character = Some k"
  shows "(\<forall>readings. dictionary k = Some readings \<and> readings \<noteq> [] \<longrightarrow>
            get_han_viet_reading upper character dictionary =
              Inr (Some (str_join comma_space (map upper (sort readings))))
          \<and> sorted (sort readings) \<and> mset (sort readings) = mset readings)
       \<and> (dictionary k = None \<longrightarrow>
            get_han_viet_reading upper character dictionary = Inr None)"
  using assms by (simp add: get_reading_hit get_reading_absent)

theorem lookup_formats_readings_witness:
  "hashkey (JStr [27700]) = Some (KStr [27700])
   \<and> get_han_viet_reading ascii_upper (JStr [27700]) (Map.empty(KStr [27700] \<mapsto> [[97], [66]]))
       = Inr (Some [66, 44, 32, 65])
   \<and> get_han_viet_reading ascii_upper (JStr [40845]) (Map.empty(KStr [27700] \<mapsto> [[97], [66]]))
       = Inr None"
proof -
  have h1: "hashkey (JStr [27700]) = Some (KStr [27700])" by simp
  have h2: "hashkey (JStr [40845]) = Some (KStr [40845])" by simp
  from lookup_formats_readings [OF h1, of "Map.empty(KStr [27700] \<mapsto> [[97], [66]])" ascii_upper]
  have a: "get_han_viet_reading ascii_upper (JStr [27700]) (Map.empty(KStr [27700] \<mapsto> [[97], [66]]))
       = Inr (Some [66, 44, 32, 65])"
    by (simp add: ascii_upper_def comma_space_def)
  from lookup_formats_readings [OF h2, of "Map.empty(KStr [27700] \<mapsto> [[97], [66]])" ascii_upper]
  have b: "get_han_viet_reading ascii_upper (JStr [40845]) (Map.empty(KStr [27700] \<mapsto> [[97], [66]]))
       = Inr None"
    by simp
  from h1 a b show ?thesis by simp
qed

text \<open>
  Claim C1 as worded asks for the order of the upper-cased forms.  With the readings
  \<open>a\<close> and \<open>B\<close> stored for a character, the code returns \<open>B, A\<close> (\<open>B\<close> sorts before
  \<open>a\<close>), which is not what sorting the upper-cased forms gives (\<open>A, B\<close>).
\<close>

theorem lookup_sorted_on_upper_counterexample:
  "get_han_viet_reading ascii_upper (JStr [27700]) (Map.empty(KStr [27700] \<mapsto> [[97], [66]]))
     \<noteq> Inr (Some (lookup_spec ascii_upper [[97], [66]]))"
  by (simp add: get_han_viet_reading_def lookup_spec_def ascii_upper_def comma_space_def)

section \<open>Loading the dictionary\<close>

text \<open>
  Claim C2 at the dictionary \<open>[["\<dots>", [[" "]]]]\<close>, whose only candidate reading is one
  space: the candidate is truthy, so it is stripped and kept, and the map holds the
  empty string as a reading of the character, whatever order the set is listed in.
\<close>

theorem load_dictionary_keeps_blank_reading:
  "\<exists>dictionary.
     load_dictionary list_of_set (Loaded (JArr [JArr [JStr [27700], JArr [JArr [JStr [32]]]]]))
       = Inr dictionary
     \<and> dictionary (KStr [27700]) = Some (list_of_set [[]])"
  by (simp add: load_dictionary_def load_entry_def strip_def isspace_def)

section \<open>Failures of the two reads\<close>

lemma load_dictionary_status: "load_dictionary los f = Inl status \<Longrightarrow> status = 1"
  by (auto simp: load_dictionary_def split: file_read.splits sum.splits)

lemma load_dictionary_not_loaded: "\<not> is_loaded f \<Longrightarrow> load_dictionary los f = Inl 1"
  by (cases f) (simp_all add: load_dictionary_def is_loaded_def)

text \<open>
  Claim C9.  When the dictionary file cannot be read or parsed, and more generally whenever
  \<open>load_dictionary\<close> fails, the process ends through \<open>sys.exit\<close> with a status that
  is not zero (it is 1), whatever the kanji input file is: that file is not looked at.
  When the dictionary loads and the kanji input file cannot be read or parsed, the run
  returns early, which writes no output file and ends no process.
\<close>

theorem failure_semantics:
  "(\<not> is_loaded dictionary_file \<longrightarrow>
      process_kanji_file upper los dictionary_file kanji_input_file = SysExit 1)
   \<and> (\<forall>status. load_dictionary los dictionary_file = Inl status \<longrightarrow>
        status \<noteq> 0 \<and>
        process_kanji_file upper los dictionary_file kanji_input_file = SysExit status)
   \<and> (\<forall>d. load_dictionary los dictionary_file = Inr d \<and> \<not> is_loaded kanji_input_file \<longrightarrow>
        process_kanji_file upper los dictionary_file kanji_input_file = ReturnedEarly)"
proof (intro conjI allI impI)
  assume "\<not> is_loaded dictionary_file"
  then show "process_kanji_file upper los dictionary_file kanji_input_file = SysExit 1"
    by (simp add: process_kanji_file_def load_dictionary_not_loaded)
next
  fix status assume "load_dictionary los dictionary_file = Inl status"
  then show "status \<noteq> 0" using load_dictionary_status by fastforce
next
  fix status assume "load_dictionary los dictionary_file = Inl status"
  then show "process_kanji_file upper los dictionary_file kanji_input_file = SysExit status"
    by (simp add: process_kanji_file_def)
next
  fix d assume "load_dictionary los dictionary_file = Inr d \<and> \<not> is_loaded kanji_input_file"
  then show "process_kanji_file upper los dictionary_file kanji_input_file = ReturnedEarly"
    by (cases kanji_input_file) (simp_all add: process_kanji_file_def is_loaded_def)
qed

text \<open>
  The three cases at concrete files: a missing dictionary, a dictionary that parses to
  the number 5, and an empty dictionary with a kanji file that does not parse.
\<close>

theorem failure_semantics_witness:
  "\<not> is_loaded (FileNotFound :: json file_read)
   \<and> process_kanji_file ascii_upper remdups FileNotFound (Loaded (JObj [])) = SysExit 1
   \<and> load_dictionary remdups (Loaded (JInt 5)) = Inl 1
   \<and> process_kanji_file ascii_upper remdups (Loaded (JInt 5)) (Loaded (JObj [])) = SysExit 1
   \<and> load_dictionary remdups (Loaded (JArr [])) = Inr Map.empty
   \<and> \<not> is_loaded (JSONDecodeError :: json file_read)
   \<and> process_kanji_file ascii_upper remdups (Loaded (JArr [])) JSONDecodeError = ReturnedEarly"
proof -
  have h1: "\<not> is_loaded (FileNotFound :: json file_read)" by (simp add: is_loaded_def)
  have h2: "load_dictionary remdups (Loaded (JInt 5)) = Inl 1" by (simp add: load_dictionary_def)
  have h3: "load_dictionary remdups (Loaded (JArr [])) = Inr Map.empty"
    by (simp add: load_dictionary_def)
  have h4: "\<not> is_loaded (JSONDecodeError :: json file_read)" by (simp add: is_loaded_def)
  note t1 = failure_semantics [of FileNotFound ascii_upper remdups "Loaded (JObj [])"]
  note t2 = failure_semantics [of "Loaded (JInt 5)" ascii_upper remdups "Loaded (JObj [])"]
  note t3 = failure_semantics [of "Loaded (JArr [])" ascii_upper remdups JSONDecodeError]
  from t1 h1 have a: "process_kanji_file ascii_upper remdups FileNotFound (Loaded (JObj [])) = SysExit 1"
    by blast
  from t2 h2 have b: "process_kanji_file ascii_upper remdups (Loaded (JInt 5)) (Loaded (JObj [])) = SysExit 1"
    by blast
  from t3 h3 h4 have c: "process_kanji_file ascii_upper remdups (Loaded (JArr [])) JSONDecodeError = ReturnedEarly"
    by blast
  from h1 h2 h3 h4 a b c show ?thesis by blast
qed

section \<open>A document without the key kanji\<close>

lemma dict_setitem_append:
  "k \<notin> fst ` set fields \<Longrightarrow> dict_setitem k v fields = fields @ [(k, v)]"
  by (induction fields) auto

lemma dict_get_absent: "k \<notin> fst ` set fields \<Longrightarrow> dict_get fields k dflt = dflt"
  by (simp add: dict_get_def map_of_eq_None_iff [THEN iffD2])

text \<open>
  Claim C6.  When the dictionary loads and the input document is an object without the
  key \<open>kanji\<close>, the run writes the input document with \<open>kanji\<close> added at the end,
  mapped to the empty array, and both counters are zero.
\<close>

theorem enricher_missing_kanji_key:
  assumes "load_dictionary los dictionary_file = Inr d"
      and "key_kanji \<notin> fst ` set fields"
  shows "process_kanji_file upper los dictionary_file (Loaded (JObj fields)) =
           Wrote (JObj (fields @ [(key_kanji, JArr [])])) 0 0"
  using assms
  by (simp add: process_kanji_file_def dict_get_absent dict_setitem_append)

theorem enricher_missing_kanji_key_witness:
  "load_dictionary remdups (Loaded (JArr [])) = Inr Map.empty
   \<and> key_kanji \<notin> fst ` set [(ascii ''title'', JStr (ascii ''N5''))]
   \<and> process_kanji_file ascii_upper remdups (Loaded (JArr []))
        (Loaded (JObj [(ascii ''title'', JStr (ascii ''N5''))])) =
      Wrote (JObj [(ascii ''title'', JStr (ascii ''N5'')), (key_kanji, JArr [])]) 0 0"
proof -
  have h1: "load_dictionary remdups (Loaded (JArr [])) = Inr Map.empty"
    by (simp add: load_dictionary_def)
  have h2: "key_kanji \<notin> fst ` set [(ascii ''title'', JStr (ascii ''N5''))]"
    by (simp add: key_kanji_def ascii_def)
  from enricher_missing_kanji_key [OF h1 h2, of ascii_upper] h1 h2 show ?thesis by simp
qed

section \<open>The new meaning of a record\<close>

lemma dict_get_setitem [simp]: "dict_get (dict_setitem k v fields) k dflt = v"
  by (induction fields) (auto simp: dict_get_def)

lemma dict_get_setitem_other:
  "k' \<noteq> k \<Longrightarrow> dict_get (dict_setitem k v fields) k' dflt = dict_get fields k' dflt"
  by (induction fields) (auto simp: dict_get_def)

lemma key_character_neq_meaning: "key_character \<noteq> key_meaning"
  by (simp add: key_character_def key_meaning_def ascii_def)

lemma enrich_entry_hit:
  assumes "truthy (dict_get fields key_character JNull)"
      and "dict_get fields key_meaning JNull = JStr m"
      and "get_han_viet_reading upper (dict_get fields key_character JNull) d = Inr (Some sv)"
      and "sv \<noteq> []"
  shows "enrich_entry upper d (JObj fields) mc sc =
           Inr (JObj (dict_setitem key_meaning
                  (JStr (if strip m \<noteq> [] then sv @ comma_space @ m else sv)) fields),
                mc + 1, sc)"
  using assms by simp

text \<open>
  Claim C4.  For an eligible record whose meaning is the string \<open>m\<close> and whose lookup
  gives the non-empty string \<open>sv\<close>: the record is counted as modified, and its new
  meaning is \<open>sv\<close>, a comma, a space and \<open>m\<close> when \<open>m\<close> is not blank, and \<open>sv\<close>
  alone when \<open>m\<close> is empty or whitespace only.
\<close>

theorem enrich_entry_new_meaning:
  assumes "truthy (dict_get fields key_character JNull)"
      and "dict_get fields key_meaning JNull = JStr m"
      and "get_han_viet_reading upper (dict_get fields key_character JNull) d = Inr (Some sv)"
      and "sv \<noteq> []"
  shows "\<exists>kanji_entry'.
           enrich_entry upper d (JObj fields) mc sc = Inr (kanji_entry', mc + 1, sc)
         \<and> (strip m \<noteq> [] \<longrightarrow>
              py_get kanji_entry' key_meaning JNull = Inr (JStr (sv @ comma_space @ m)))
         \<and> (strip m = [] \<longrightarrow> py_get kanji_entry' key_meaning JNull = Inr (JStr sv))"
  using enrich_entry_hit [OF assms] by simp

lemma water_lookup:
  "get_han_viet_reading ascii_upper (JStr [27700]) water_dictionary = Inr (Some (ascii ''THUY''))"
  by (simp add: get_han_viet_reading_def water_dictionary_def ascii_upper_def ascii_def)

lemma fire_lookup:
  "get_han_viet_reading ascii_upper (JStr [28779]) water_dictionary = Inr (Some (ascii ''HOA''))"
  by (simp add: get_han_viet_reading_def water_dictionary_def ascii_upper_def ascii_def)

lemma water_record_fields:
  "dict_get water_record key_character JNull = JStr [27700]"
  "dict_get water_record key_meaning JNull = JStr (ascii ''water'')"
  by (simp_all add: water_record_def dict_get_def key_character_neq_meaning [symmetric])

lemma fire_record_fields:
  "dict_get fire_record key_character JNull = JStr [28779]"
  "dict_get fire_record key_meaning JNull = JStr []"
  by (simp_all add: fire_record_def dict_get_def key_character_neq_meaning [symmetric])

lemma strip_water: "strip (ascii ''water'') \<noteq> []"
  by (simp add: strip_def ascii_def isspace_def)

text \<open>Scenarios A and C of the specification (readings written in ASCII).\<close>

theorem enrich_entry_new_meaning_witness:
  "(\<exists>e. enrich_entry ascii_upper water_dictionary (JObj water_record) 0 0 = Inr (e, 1, 0)
        \<and> py_get e key_meaning JNull = Inr (JStr (ascii ''THUY, water'')))
   \<and> (\<exists>e. enrich_entry ascii_upper water_dictionary (JObj fire_record) 0 0 = Inr (e, 1, 0)
        \<and> py_get e key_meaning JNull = Inr (JStr (ascii ''HOA'')))"
proof -
  have a: "truthy (dict_get water_record key_character JNull)"
    by (simp add: water_record_fields)
  have b: "get_han_viet_reading ascii_upper (dict_get water_record key_character JNull)
             water_dictionary = Inr (Some (ascii ''THUY''))"
    by (simp add: water_record_fields water_lookup)
  have c: "ascii ''THUY'' \<noteq> []" by (simp add: ascii_def)
  have a': "truthy (dict_get fire_record key_character JNull)"
    by (simp add: fire_record_fields)
  have b': "get_han_viet_reading ascii_upper (dict_get fire_record key_character JNull)
             water_dictionary = Inr (Some (ascii ''HOA''))"
    by (simp add: fire_record_fields fire_lookup)
  have c': "ascii ''HOA'' \<noteq> []" by (simp add: ascii_def)
  have d': "strip [] = []" by (simp add: strip_def)
  have e: "ascii ''THUY'' @ comma_space @ ascii ''water'' = ascii ''THUY, water''"
    by (simp add: ascii_def comma_space_def)
  from enrich_entry_new_meaning [OF a water_record_fields(2) b c, of 0 0] strip_water e
  have w: "\<exists>e. enrich_entry ascii_upper water_dictionary (JObj water_record) 0 0 = Inr (e, 1, 0)
        \<and> py_get e key_meaning JNull = Inr (JStr (ascii ''THUY, water''))"
    by auto
  from enrich_entry_new_meaning [OF a' fire_record_fields(2) b' c', of 0 0] d'
  have f: "\<exists>e. enrich_entry ascii_upper water_dictionary (JObj fire_record) 0 0 = Inr (e, 1, 0)
        \<and> py_get e key_meaning JNull = Inr (JStr (ascii ''HOA''))"
    by auto
  from w f show ?thesis by blast
qed

section \<open>Running the pass twice\<close>

lemma strip_eq_Nil_iff: "strip s = [] \<longleftrightarrow> (\<forall>c \<in> set s. isspace c)"
proof
  assume "strip s = []"
  then have "dropWhile isspace (rev (dropWhile isspace s)) = []" by (simp add: strip_def)
  then have all: "\<forall>c \<in> set (dropWhile isspace s). isspace c"
    by simp
  have "dropWhile isspace s = []"
  proof (rule ccontr)
    assume ne: "dropWhile isspace s \<noteq> []"
    then have "\<not> isspace (hd (dropWhile isspace s))" by (rule hd_dropWhile)
    moreover from ne have "hd (dropWhile isspace s) \<in> set (dropWhile isspace s)" by simp
    ultimately show False using all by blast
  qed
  then show "\<forall>c \<in> set s. isspace c" by simp
next
  assume "\<forall>c \<in> set s. isspace c"
  then have "dropWhile isspace s = []" by simp
  then show "strip s = []" by (simp add: strip_def del: dropWhile_eq_Nil_conv)
qed

lemma strip_append_nonblank: "strip m \<noteq> [] \<Longrightarrow> strip (xs @ m) \<noteq> []"
  by (auto simp: strip_eq_Nil_iff)

text \<open>
  Claim C7.  The pass is not idempotent.  For a record with a dictionary hit \<open>sv\<close> and a
  meaning \<open>m\<close> that is not blank, the pass over the record gives the meaning
  \<open>sv, m\<close>, the pass over that result gives \<open>sv, sv, m\<close>, the reading prepended
  twice, and the two results differ.  The witness below is such a record.
\<close>

theorem enrichment_not_idempotent:
  assumes "truthy (dict_get fields key_character JNull)"
      and "dict_get fields key_meaning JNull = JStr m"
      and "strip m \<noteq> []"
      and "get_han_viet_reading upper (dict_get fields key_character JNull) d = Inr (Some sv)"
      and "sv \<noteq> []"
  shows "\<exists>once twice.
           enrich_entry upper d (JObj fields) 0 0 = Inr (once, 1, 0)
         \<and> enrich_entry upper d once 0 0 = Inr (twice, 1, 0)
         \<and> py_get once key_meaning JNull = Inr (JStr (sv @ comma_space @ m))
         \<and> py_get twice key_meaning JNull =
             Inr (JStr (sv @ comma_space @ sv @ comma_space @ m))
         \<and> twice \<noteq> once"
proof -
  let ?m1 = "sv @ comma_space @ m"
  let ?f1 = "dict_setitem key_meaning (JStr ?m1) fields"
  let ?m2 = "sv @ comma_space @ ?m1"
  let ?f2 = "dict_setitem key_meaning (JStr ?m2) ?f1"
  have first: "enrich_entry upper d (JObj fields) 0 0 = Inr (JObj ?f1, 1, 0)"
    using enrich_entry_hit [OF assms(1,2,4,5), of 0 0] assms(3) by simp
  have ch: "dict_get ?f1 key_character JNull = dict_get fields key_character JNull"
    by (simp add: dict_get_setitem_other key_character_neq_meaning)
  have me: "dict_get ?f1 key_meaning JNull = JStr ?m1" by simp
  have nb: "strip ?m1 \<noteq> []"
    using strip_append_nonblank [OF assms(3), of "sv @ comma_space"] by simp
  have second: "enrich_entry upper d (JObj ?f1) 0 0 = Inr (JObj ?f2, 1, 0)"
    using enrich_entry_hit [of ?f1 ?m1 upper d sv 0 0] assms(1,4,5) ch me nb by simp
  have m1: "py_get (JObj ?f1) key_meaning JNull = Inr (JStr ?m1)" by simp
  have m2: "py_get (JObj ?f2) key_meaning JNull = Inr (JStr ?m2)" by simp
  have ne: "?m2 \<noteq> ?m1" using assms(5) by simp
  have "JObj ?f2 \<noteq> JObj ?f1"
  proof
    assume eq: "JObj ?f2 = JObj ?f1"
    from arg_cong [OF eq, of "\<lambda>e. py_get e key_meaning JNull"] m1 m2 ne
    show False by simp
  qed
  with first second m1 m2 show ?thesis by blast
qed

theorem enrichment_not_idempotent_witness:
  "\<exists>once twice.
      enrich_entry ascii_upper water_dictionary (JObj water_record) 0 0 = Inr (once, 1, 0)
    \<and> enrich_entry ascii_upper water_dictionary once 0 0 = Inr (twice, 1, 0)
    \<and> py_get once key_meaning JNull = Inr (JStr (ascii ''THUY, water''))
    \<and> py_get twice key_meaning JNull = Inr (JStr (ascii ''THUY, THUY, water''))
    \<and> twice \<noteq> once"
proof -
  have a: "truthy (dict_get water_record key_character JNull)"
    by (simp add: water_record_fields)
  have b: "get_han_viet_reading ascii_upper (dict_get water_record key_character JNull)
             water_dictionary = Inr (Some (ascii ''THUY''))"
    by (simp add: water_record_fields water_lookup)
  have c: "ascii ''THUY'' \<noteq> []" by (simp add: ascii_def)
  have e1: "ascii ''THUY'' @ comma_space @ ascii ''water'' = ascii ''THUY, water''"
    by (simp add: ascii_def comma_space_def)
  have e2: "ascii ''THUY'' @ comma_space @ ascii ''THUY, water''
              = ascii ''THUY, THUY, water''"
    by (simp add: ascii_def comma_space_def)
  from enrichment_not_idempotent [OF a water_record_fields(2) strip_water b c]
  show ?thesis unfolding e1 e2 .
qed

section \<open>The two counters\<close>

lemma get_reading_total:
  "hashkey character \<noteq> None \<Longrightarrow> \<exists>r. get_han_viet_reading upper character d = Inr r"
  by (auto simp: get_han_viet_reading_def split: option.splits)

lemma enrich_entry_total:
  assumes "kanji_record e"
  shows "\<exists>e' m' s'. enrich_entry upper d e m s = Inr (e', m', s')
     \<and> (if eligible e
         then (if has_reading upper d e then m' = m + 1 \<and> s' = s
               else e' = e \<and> m' = m \<and> s' = s + 1)
         else e' = e \<and> m' = m \<and> s' = s)"
proof (cases e)
  case (JObj fields)
  with assms have hk: "hashkey (dict_get fields key_character JNull) \<noteq> None"
    and sn: "is_str_or_null (dict_get fields key_meaning JNull)"
    by (simp_all add: kanji_record_def)
  from get_reading_total [OF hk] obtain r where
    r: "get_han_viet_reading upper (dict_get fields key_character JNull) d = Inr r" by blast
  show ?thesis
  proof (cases "dict_get fields key_meaning JNull")
    case JNull
    with JObj show ?thesis by (simp add: eligible_def)
  next
    case (JStr mm)
    with JObj r show ?thesis
      by (cases r) (simp_all add: eligible_def has_reading_def Let_def)
  qed (use sn in simp_all)
qed (use assms in \<open>simp_all add: kanji_record_def\<close>)

lemma enrich_loop_counts:
  assumes "\<forall>e \<in> set entries. kanji_record e"
  shows "\<exists>entries' modified skipped.
      enrich_loop upper d entries m s = Inr (entries', modified, skipped)
    \<and> length entries' = length entries
    \<and> (\<forall>i < length entries. \<not> eligible (entries ! i) \<longrightarrow> entries' ! i = entries ! i)
    \<and> modified = m + length (filter (\<lambda>e. eligible e \<and> has_reading upper d e) entries)
    \<and> skipped = s + length (filter (\<lambda>e. eligible e \<and> \<not> has_reading upper d e) entries)"
  using assms
proof (induction entries arbitrary: m s)
  case Nil
  show ?case by simp
next
  case (Cons e es)
  then have ke: "kanji_record e" and kes: "\<forall>x \<in> set es. kanji_record x" by simp_all
  from enrich_entry_total [OF ke, of upper d m s] obtain e' m' s' where
    step: "enrich_entry upper d e m s = Inr (e', m', s')"
    and eff: "if eligible e
         then (if has_reading upper d e then m' = m + 1 \<and> s' = s
               else e' = e \<and> m' = m \<and> s' = s + 1)
         else e' = e \<and> m' = m \<and> s' = s" by blast
  from Cons.IH [OF kes, of m' s'] obtain es' mo sk where
    rest: "enrich_loop upper d es m' s' = Inr (es', mo, sk)"
    and len: "length es' = length es"
    and same: "\<forall>i < length es. \<not> eligible (es ! i) \<longrightarrow> es' ! i = es ! i"
    and mo: "mo = m' + length (filter (\<lambda>e. eligible e \<and> has_reading upper d e) es)"
    and sk: "sk = s' + length (filter (\<lambda>e. eligible e \<and> \<not> has_reading upper d e) es)"
    by blast
  have run: "enrich_loop upper d (e # es) m s = Inr (e' # es', mo, sk)"
    using step rest by simp
  have same': "\<forall>i < length (e # es). \<not> eligible ((e # es) ! i) \<longrightarrow> (e' # es') ! i = (e # es) ! i"
  proof (intro allI impI)
    fix i assume "i < length (e # es)" and ne: "\<not> eligible ((e # es) ! i)"
    then show "(e' # es') ! i = (e # es) ! i"
      using eff same by (cases i) (auto split: if_splits)
  qed
  have mo': "mo = m + length (filter (\<lambda>e. eligible e \<and> has_reading upper d e) (e # es))"
    using eff mo by (auto split: if_splits)
  have sk': "sk = s + length (filter (\<lambda>e. eligible e \<and> \<not> has_reading upper d e) (e # es))"
    using eff sk by (auto split: if_splits)
  from run len same' mo' sk' show ?case by simp
qed

lemma filter_partition_length:
  "length (filter (\<lambda>e. P e \<and> Q e) xs) + length (filter (\<lambda>e. P e \<and> \<not> Q e) xs)
     = length (filter P xs)"
  by (induction xs) auto

text \<open>
  Claim C3.  Over records of the data model the loop completes, and: a record that is
  not eligible (\<open>character\<close> absent or falsy, or \<open>meaning\<close> absent or \<open>null\<close>) is
  left as it is and counted nowhere; \<open>modified\<close> counts the eligible records with a
  reading and \<open>skipped\<close> the eligible records without one, so that every eligible record,
  an empty-string meaning included, is counted in exactly one of the two; and
  \<open>modified + skipped\<close> does not exceed the number of eligible records.
\<close>

theorem enricher_counters:
  assumes "\<forall>e \<in> set entries. kanji_record e"
  shows "\<exists>entries' modified skipped.
      enrich_loop upper d entries 0 0 = Inr (entries', modified, skipped)
    \<and> length entries' = length entries
    \<and> (\<forall>i < length entries. \<not> eligible (entries ! i) \<longrightarrow> entries' ! i = entries ! i)
    \<and> modified = length (filter (\<lambda>e. eligible e \<and> has_reading upper d e) entries)
    \<and> skipped = length (filter (\<lambda>e. eligible e \<and> \<not> has_reading upper d e) entries)
    \<and> modified + skipped \<le> length (filter eligible entries)"
proof -
  from enrich_loop_counts [OF assms, of upper d 0 0] obtain es' mo sk where
    run: "enrich_loop upper d entries 0 0 = Inr (es', mo, sk)"
    and len: "length es' = length entries"
    and same: "\<forall>i < length entries. \<not> eligible (entries ! i) \<longrightarrow> es' ! i = entries ! i"
    and mo: "mo = length (filter (\<lambda>e. eligible e \<and> has_reading upper d e) entries)"
    and sk: "sk = length (filter (\<lambda>e. eligible e \<and> \<not> has_reading upper d e) entries)"
    by auto
  have "mo + sk \<le> length (filter eligible entries)"
    using filter_partition_length [of eligible "has_reading upper d" entries] mo sk by simp
  with run len same mo sk show ?thesis by blast
qed

lemma dragon_record_fields:
  "dict_get dragon_record key_character JNull = JStr [40845]"
  "dict_get dragon_record key_meaning JNull = JStr (ascii ''dragon'')"
  by (simp_all add: dragon_record_def dict_get_def key_character_neq_meaning [symmetric])

lemma bare_record_fields:
  "dict_get bare_record key_character JNull = JStr [27700]"
  "dict_get bare_record key_meaning JNull = JNull"
  by (simp_all add: bare_record_def dict_get_def key_character_neq_meaning [symmetric])

lemma dragon_lookup:
  "get_han_viet_reading ascii_upper (JStr [40845]) water_dictionary = Inr None"
  by (simp add: get_han_viet_reading_def water_dictionary_def)

text \<open>
  Three records: one with a reading, one without, and one without \<open>meaning\<close>; the
  counters end at 1 and 1 and the third record is unchanged.
\<close>

theorem enricher_counters_witness:
  "kanji_record (JObj water_record) \<and> kanji_record (JObj dragon_record)
   \<and> kanji_record (JObj bare_record)
   \<and> (\<exists>entries'.
        enrich_loop ascii_upper water_dictionary
          [JObj water_record, JObj dragon_record, JObj bare_record] 0 0 = Inr (entries', 1, 1)
      \<and> entries' ! 2 = JObj bare_record)"
proof -
  let ?E = "[JObj water_record, JObj dragon_record, JObj bare_record]"
  have h: "\<forall>e \<in> set ?E. kanji_record e"
    by (simp add: kanji_record_def water_record_fields dragon_record_fields bare_record_fields)
  have el: "eligible (JObj water_record)" "eligible (JObj dragon_record)"
           "\<not> eligible (JObj bare_record)"
    by (simp_all add: eligible_def water_record_fields dragon_record_fields bare_record_fields)
  have hr: "has_reading ascii_upper water_dictionary (JObj water_record)"
           "\<not> has_reading ascii_upper water_dictionary (JObj dragon_record)"
    by (simp_all add: has_reading_def water_record_fields dragon_record_fields
          water_lookup dragon_lookup ascii_def)
  from enricher_counters [OF h, of ascii_upper water_dictionary] obtain es' mo sk where
    run: "enrich_loop ascii_upper water_dictionary ?E 0 0 = Inr (es', mo, sk)"
    and same: "\<forall>i < length ?E. \<not> eligible (?E ! i) \<longrightarrow> es' ! i = ?E ! i"
    and mo: "mo = length (filter (\<lambda>e. eligible e \<and> has_reading ascii_upper water_dictionary e) ?E)"
    and sk: "sk = length (filter (\<lambda>e. eligible e \<and> \<not> has_reading ascii_upper water_dictionary e) ?E)"
    by blast
  from mo el hr have "mo = 1" by simp
  moreover from sk el hr have "sk = 1" by simp
  moreover from same el have "es' ! 2 = JObj bare_record" by simp
  ultimately show ?thesis using run h by simp
qed

section \<open>What the pass leaves unchanged\<close>

lemma same_fields_refl: "(\<And>v. R v v) \<Longrightarrow> same_fields_except k R fields fields"
  by (simp add: same_fields_except_def list_all2_same)

lemma record_frame_refl: "record_frame e e"
  by (cases e) (simp_all add: same_fields_refl)

lemma kanji_frame_refl: "kanji_frame v v"
  by (cases v) (simp_all add: list_all2_same record_frame_refl)

lemma dict_get_present: "dict_get fields k dflt \<noteq> dflt \<Longrightarrow> k \<in> fst ` set fields"
  by (auto simp: dict_get_def split: option.splits dest!: map_of_SomeD intro: rev_image_eqI)

lemma setitem_frame:
  assumes "\<And>v. R v v"
  shows "k \<in> fst ` set fields \<Longrightarrow> R (dict_get fields k dflt) v' \<Longrightarrow>
         same_fields_except k R fields (dict_setitem k v' fields)"
proof (induction fields)
  case Nil
  then show ?case by simp
next
  case (Cons kv fields)
  show ?case
  proof (cases "fst kv = k")
    case True
    with Cons.prems(2) have "R (snd kv) v'" by (cases kv) (simp add: dict_get_def)
    moreover have "same_fields_except k R fields fields" using assms by (rule same_fields_refl)
    ultimately show ?thesis using True by (simp add: same_fields_except_def)
  next
    case False
    with Cons.prems have "k \<in> fst ` set fields" and "R (dict_get fields k dflt) v'"
      by (cases kv; auto simp: dict_get_def)+
    from Cons.IH [OF this] False show ?thesis by (simp add: same_fields_except_def)
  qed
qed

lemma enrich_entry_frame:
  assumes "enrich_entry upper d e m s = Inr (e', m', s')"
  shows "record_frame e e'"
proof (cases e)
  case (JObj fields)
  show ?thesis
  proof (cases "e' = e")
    case True
    then show ?thesis by (simp add: record_frame_refl)
  next
    case False
    with assms JObj obtain mm v where
      mm: "dict_get fields key_meaning JNull = JStr mm"
      and e': "e' = JObj (dict_setitem key_meaning v fields)"
      by (auto simp: Let_def split: if_splits sum.splits option.splits json.splits)
    from mm have "key_meaning \<in> fst ` set fields" by (intro dict_get_present [of _ _ JNull]) simp
    then have "same_fields_except key_meaning (\<lambda>v v'. True) fields (dict_setitem key_meaning v fields)"
      by (intro setitem_frame) simp_all
    with JObj e' show ?thesis by simp
  qed
qed (use assms in simp_all)

lemma enrich_loop_frame:
  "enrich_loop upper d entries m s = Inr (entries', m', s') \<Longrightarrow>
   list_all2 record_frame entries entries'"
proof (induction entries arbitrary: m s entries')
  case Nil
  then show ?case by simp
next
  case (Cons e es)
  from Cons.prems obtain e1 m1 s1 es1 where
    step: "enrich_entry upper d e m s = Inr (e1, m1, s1)"
    and rest: "enrich_loop upper d es m1 s1 = Inr (es1, m', s')"
    and res: "entries' = e1 # es1"
    by (auto split: sum.splits prod.splits)
  from enrich_entry_frame [OF step] Cons.IH [OF rest] res show ?case by simp
qed

lemma kanji_list_after_frame:
  assumes "py_iter kanji_list = Inr entries" and "list_all2 record_frame entries entries'"
  shows "kanji_frame kanji_list (kanji_list_after kanji_list entries')"
  using assms by (cases kanji_list) (simp_all add: kanji_frame_refl)

text \<open>
  Claim C5, as the code has it.  Whenever the run writes a document, the input is an
  object, and: if it has the key \<open>kanji\<close>, the output has the same fields in the same
  order, all with the value they had, except that in the records of the \<open>kanji\<close> array
  the value of \<open>meaning\<close> may differ; if it has no key \<open>kanji\<close>, the output is the
  input with \<open>kanji\<close> added at the end, mapped to the empty array.
\<close>

theorem enricher_frame:
  assumes "process_kanji_file upper los dictionary_file (Loaded data) = Wrote out modified skipped"
  shows "\<exists>fields. data = JObj fields \<and>
           (if key_kanji \<in> fst ` set fields
            then only_meanings_changed data out
            else out = JObj (fields @ [(key_kanji, JArr [])]))"
proof -
  from assms obtain hvd where ld: "load_dictionary los dictionary_file = Inr hvd"
    by (auto simp: process_kanji_file_def split: sum.splits)
  from assms ld obtain fields where data: "data = JObj fields"
    by (cases data) (simp_all add: process_kanji_file_def)
  show ?thesis
  proof (cases "key_kanji \<in> fst ` set fields")
    case False
    with assms ld data have "out = JObj (fields @ [(key_kanji, JArr [])])"
      by (simp add: process_kanji_file_def dict_get_absent dict_setitem_append)
    with data False show ?thesis by simp
  next
    case True
    let ?kl = "dict_get fields key_kanji (JArr [])"
    from assms ld data obtain n entries entries' where
      it: "py_iter ?kl = Inr entries"
      and lp: "enrich_loop upper hvd entries 0 0 = Inr (entries', modified, skipped)"
      and out: "out = JObj (dict_setitem key_kanji (kanji_list_after ?kl entries') fields)"
      by (auto simp: process_kanji_file_def Let_def split: sum.splits prod.splits)
    from kanji_list_after_frame [OF it enrich_loop_frame [OF lp]]
    have "kanji_frame ?kl (kanji_list_after ?kl entries')" .
    with True have "same_fields_except key_kanji kanji_frame fields
                      (dict_setitem key_kanji (kanji_list_after ?kl entries') fields)"
      by (intro setitem_frame) (simp_all add: kanji_frame_refl)
    with data out True show ?thesis by simp
  qed
qed

lemma sample_run:
  "process_kanji_file ascii_upper remdups sample_dictionary_file (Loaded sample_document)
     = Wrote sample_output 1 0"
  by (simp add: process_kanji_file_def load_dictionary_def load_entry_def sample_dictionary_file_def
        sample_document_def sample_output_def water_record_def dict_get_def
        get_han_viet_reading_def strip_def isspace_def ascii_def ascii_upper_def comma_space_def
        key_kanji_def key_character_def key_meaning_def key_category_def)

text \<open>A run on a document with a title, and a record with a category.\<close>

theorem enricher_frame_witness:
  "process_kanji_file ascii_upper remdups sample_dictionary_file (Loaded sample_document)
     = Wrote sample_output 1 0
   \<and> only_meanings_changed sample_document sample_output"
proof -
  from enricher_frame [OF sample_run] obtain fields where
    f: "sample_document = JObj fields"
    and c: "if key_kanji \<in> fst ` set fields
            then only_meanings_changed sample_document sample_output
            else sample_output = JObj (fields @ [(key_kanji, JArr [])])"
    by blast
  from f have "key_kanji \<in> fst ` set fields" by (auto simp: sample_document_def)
  with c have "only_meanings_changed sample_document sample_output" by simp
  with sample_run show ?thesis by simp
qed

text \<open>
  Claim C5 as worded fails on the document \<open>{}\<close>: no meaning is there to change, and
  the output \<open>{"kanji": []}\<close> is not the input.
\<close>

theorem enricher_frame_counterexample:
  "process_kanji_file ascii_upper remdups (Loaded (JArr [])) (Loaded (JObj []))
     = Wrote (JObj [(key_kanji, JArr [])]) 0 0
   \<and> \<not> only_meanings_changed (JObj []) (JObj [(key_kanji, JArr [])])"
  by (simp add: process_kanji_file_def load_dictionary_def dict_get_def same_fields_except_def)

section \<open>Several entries for one character\<close>

lemma load_entry_effect:
  "load_entry los entry d = Inr d' \<Longrightarrow>
   d' = (case entry_readings entry of None \<Rightarrow> d | Some (k, rs) \<Rightarrow> d(k \<mapsto> los rs))"
  by (auto simp: load_entry_def entry_readings_def split: sum.splits if_splits option.splits)

lemma load_entries_append:
  "load_entries los (xs @ ys) d =
     (case load_entries los xs d of Inl e \<Rightarrow> Inl e | Inr d' \<Rightarrow> load_entries los ys d')"
  by (induction xs arbitrary: d) (auto split: sum.splits)

lemma load_entries_keeps:
  "load_entries los es d = Inr d' \<Longrightarrow> \<forall>e \<in> set es. entry_key e \<noteq> Some k \<Longrightarrow> d' k = d k"
proof (induction es arbitrary: d)
  case Nil
  then show ?case by simp
next
  case (Cons e es)
  from Cons.prems(1) obtain d1 where
    step: "load_entry los e d = Inr d1" and rest: "load_entries los es d1 = Inr d'"
    by (auto split: sum.splits)
  from Cons.prems(2) have ne: "entry_key e \<noteq> Some k" and nes: "\<forall>x \<in> set es. entry_key x \<noteq> Some k"
    by simp_all
  from load_entry_effect [OF step] ne have "d1 k = d k"
    by (auto simp: entry_key_def split: option.splits)
  with Cons.IH [OF rest nes] show ?case by simp
qed

text \<open>
  Claim C8, as the code has it.  When the dictionary loads, the map holds for a character
  only the readings of the last entry that stores readings for it: the readings of
  earlier entries are overwritten, not merged, and a later entry for the character that
  yields no reading (or is too short) leaves the map as it is.
\<close>

theorem last_entry_with_readings_wins:
  assumes "load_dictionary los (Loaded (JArr (before @ entry # after))) = Inr dictionary"
      and "entry_readings entry = Some (k, readings)"
      and "\<forall>e \<in> set after. entry_key e \<noteq> Some k"
  shows "dictionary k = Some (los readings)"
proof -
  from assms(1) have all: "load_entries los (before @ entry # after) Map.empty = Inr dictionary"
    by (auto simp: load_dictionary_def split: sum.splits)
  then obtain d1 d2 where
    step: "load_entry los entry d1 = Inr d2" and rest: "load_entries los after d2 = Inr dictionary"
    by (auto simp: load_entries_append split: sum.splits)
  from load_entry_effect [OF step] assms(2) have "d2 k = Some (los readings)" by simp
  with load_entries_keeps [OF rest assms(3)] show ?thesis by simp
qed

lemma sample_entry_readings:
  "entry_readings entry_a = Some (KStr [27700], [[65]])"
  "entry_readings entry_b = Some (KStr [27700], [[66]])"
  "entry_readings entry_none = None"
  by (simp_all add: entry_readings_def entry_a_def entry_b_def entry_none_def strip_def isspace_def)

lemma sample_load:
  "\<exists>d. load_dictionary remdups (Loaded (JArr ([entry_a] @ entry_b # [entry_none]))) = Inr d"
  by (simp add: load_dictionary_def load_entry_def entry_a_def entry_b_def entry_none_def
        strip_def isspace_def)

text \<open>
  The entries \<open>A\<close>, \<open>B\<close>, none, in this order: the map holds \<open>B\<close> alone.
\<close>

theorem last_entry_with_readings_wins_witness:
  "entry_readings entry_b = Some (KStr [27700], [[66]])
   \<and> entry_key entry_none \<noteq> Some (KStr [27700])
   \<and> stored_readings remdups (Loaded (JArr ([entry_a] @ entry_b # [entry_none]))) (KStr [27700])
       = Some [[66]]"
proof -
  from sample_load obtain d where
    d: "load_dictionary remdups (Loaded (JArr ([entry_a] @ entry_b # [entry_none]))) = Inr d"
    by blast
  have k: "\<forall>e \<in> set [entry_none]. entry_key e \<noteq> Some (KStr [27700])"
    by (simp add: entry_key_def sample_entry_readings)
  from last_entry_with_readings_wins [OF d sample_entry_readings(2) k]
  have "d (KStr [27700]) = Some [[66]]" by simp
  with d k show ?thesis by (simp add: stored_readings_def sample_entry_readings)
qed

text \<open>
  Claim C8 as worded fails when the last entry for the character yields no reading: with
  the entries \<open>A\<close>, none, the last entry for the character has no readings and the map
  holds \<open>A\<close>, the reading of the earlier entry.
\<close>

theorem last_entry_wins_counterexample:
  "py_index entry_none 0 = Inr (JStr [27700])
   \<and> entry_readings entry_none = None
   \<and> stored_readings remdups (Loaded (JArr [entry_a, entry_none])) (KStr [27700]) = Some [[65]]"
  by (simp add: stored_readings_def load_dictionary_def load_entry_def entry_readings_def
        entry_a_def entry_none_def strip_def isspace_def)

section \<open>The splitter\<close>

lemma categorised_category: "categorised r \<Longrightarrow> \<exists>c. category_of lower r = Inr c"
  by (auto simp: categorised_def category_of_def split: json.splits)

lemma group_loop_filter:
  "\<forall>r \<in> set records. categorised r \<Longrightarrow>
   group_loop lower records g =
     Inr (map (\<lambda>kg. (fst kg, snd kg @ filter (matches lower (fst kg)) records)) g)"
proof (induction records arbitrary: g)
  case Nil
  show ?case by (simp add: map_idI)
next
  case (Cons r rs)
  then have cr: "categorised r" and crs: "\<forall>x \<in> set rs. categorised x" by simp_all
  from categorised_category [OF cr] obtain c where c: "category_of lower r = Inr c" by blast
  show ?case
  proof (cases "c \<in> set (map fst g)")
    case True
    have "map (\<lambda>kg. (fst kg, snd kg @ filter (matches lower (fst kg)) rs)) (group_append c r g)
        = map (\<lambda>kg. (fst kg, snd kg @ filter (matches lower (fst kg)) (r # rs))) g"
      by (auto simp: group_append_def matches_def c)
    with True c Cons.IH [OF crs, of "group_append c r g"] show ?thesis by simp
  next
    case False
    have "map (\<lambda>kg. (fst kg, snd kg @ filter (matches lower (fst kg)) rs)) g
        = map (\<lambda>kg. (fst kg, snd kg @ filter (matches lower (fst kg)) (r # rs))) g"
      using False by (auto simp: matches_def c)
    with False c Cons.IH [OF crs, of g] show ?thesis by simp
  qed
qed

lemma group_of_empty_groups:
  "map (\<lambda>(category_key, output_filename).
          (output_filename,
           JObj [(key_kanji,
                  JArr (group_of (map (\<lambda>kg. (fst kg, snd kg @ F (fst kg))) empty_groups)
                          category_key))]))
     output_filenames
   = map (\<lambda>(category_key, output_filename).
            (output_filename, JObj [(key_kanji, JArr (F category_key))]))
       output_filenames"
  by (simp add: output_filenames_def empty_groups_def jlpt_keys_def group_of_def ascii_def)

lemma split_nonempty:
  assumes "dict_get fields key_kanji (JArr []) = JArr records"
      and "records \<noteq> []"
      and "\<forall>r \<in> set records. categorised r"
  shows "split_kanji_by_jlpt_level lower (Loaded (JObj fields)) =
           SplitWrote
             (map (\<lambda>(category_key, output_filename).
                     (output_filename,
                      JObj [(key_kanji, JArr (filter (matches lower category_key) records))]))
                output_filenames)"
  using assms(1,2) group_loop_filter [OF assms(3), of lower empty_groups]
    group_of_empty_groups [of "\<lambda>k. filter (matches lower k) records"]
  by (simp add: split_kanji_by_jlpt_level_def)

lemma split_not_truthy:
  "\<not> truthy (dict_get fields key_kanji (JArr [])) \<Longrightarrow>
   split_kanji_by_jlpt_level lower (Loaded (JObj fields)) = SplitReturned"
  by (simp add: split_kanji_by_jlpt_level_def)

text \<open>
  Claim C10, as the code has it.  For a dataset that is an object whose \<open>kanji\<close> array
  is not empty and holds categorised records, the splitter writes five files, for the
  keys \<open>jlptn5\<close> to \<open>jlptn1\<close> in this order; the file of a key holds exactly the records
  whose lower-cased category is the key, in the order of the input.  A record that
  matches none of the five keys is therefore in no file.  For a dataset that is an
  object whose \<open>kanji\<close> array is empty, and for one that has no key \<open>kanji\<close>, the
  splitter returns and no file is written.
\<close>

theorem splitter_partitions:
  "(\<forall>records.
      dict_get fields key_kanji (JArr []) = JArr records \<and> records \<noteq> [] \<and>
      (\<forall>r \<in> set records. categorised r) \<longrightarrow>
      split_kanji_by_jlpt_level lower (Loaded (JObj fields)) =
        SplitWrote
          (map (\<lambda>(category_key, output_filename).
                  (output_filename,
                   JObj [(key_kanji, JArr (filter (matches lower category_key) records))]))
             output_filenames))
   \<and> (dict_get fields key_kanji (JArr []) = JArr [] \<longrightarrow>
        split_kanji_by_jlpt_level lower (Loaded (JObj fields)) = SplitReturned \<and>
        files_written (split_kanji_by_jlpt_level lower (Loaded (JObj fields))) = [])
   \<and> (key_kanji \<notin> fst ` set fields \<longrightarrow>
        split_kanji_by_jlpt_level lower (Loaded (JObj fields)) = SplitReturned \<and>
        files_written (split_kanji_by_jlpt_level lower (Loaded (JObj fields))) = [])"
proof (intro conjI allI impI)
  fix records
  assume "dict_get fields key_kanji (JArr []) = JArr records \<and> records \<noteq> [] \<and>
          (\<forall>r \<in> set records. categorised r)"
  then show "split_kanji_by_jlpt_level lower (Loaded (JObj fields)) =
        SplitWrote
          (map (\<lambda>(category_key, output_filename).
                  (output_filename,
                   JObj [(key_kanji, JArr (filter (matches lower category_key) records))]))
             output_filenames)"
    using split_nonempty [of fields records lower] by blast
next
  assume "dict_get fields key_kanji (JArr []) = JArr []"
  then have r: "split_kanji_by_jlpt_level lower (Loaded (JObj fields)) = SplitReturned"
    by (intro split_not_truthy) simp
  then show "split_kanji_by_jlpt_level lower (Loaded (JObj fields)) = SplitReturned" .
  from r show "files_written (split_kanji_by_jlpt_level lower (Loaded (JObj fields))) = []"
    by (simp add: files_written_def)
next
  assume "key_kanji \<notin> fst ` set fields"
  then have "dict_get fields key_kanji (JArr []) = JArr []" by (rule dict_get_absent)
  then have r: "split_kanji_by_jlpt_level lower (Loaded (JObj fields)) = SplitReturned"
    by (intro split_not_truthy) simp
  then show "split_kanji_by_jlpt_level lower (Loaded (JObj fields)) = SplitReturned" .
  from r show "files_written (split_kanji_by_jlpt_level lower (Loaded (JObj fields))) = []"
    by (simp add: files_written_def)
qed

lemma scenario_d_categories:
  "category_of ascii_lower record_n5 = Inr (ascii ''jlptn5'')"
  "category_of ascii_lower record_n3 = Inr (ascii ''jlptn3'')"
  "category_of ascii_lower record_unknown = Inr (ascii ''unknown'')"
  by (simp_all add: category_of_def record_n5_def record_n3_def record_unknown_def dict_get_def
        ascii_lower_def ascii_def key_category_def key_character_def)

lemma scenario_d_categorised:
  "\<forall>r \<in> set [record_n5, record_n3, record_unknown]. categorised r"
  by (simp add: categorised_def record_n5_def record_n3_def record_unknown_def dict_get_def
        ascii_def key_category_def key_character_def)

lemma scenario_d_kanji:
  "dict_get scenario_d key_kanji (JArr []) = JArr [record_n5, record_n3, record_unknown]"
  by (simp add: scenario_d_def dict_get_def)

text \<open>
  Scenario D: the first record goes to the n5 file, the second to n3, the third nowhere.
  A titled document whose \<open>kanji\<close> array is empty, and one without the key \<open>kanji\<close>:
  no file.
\<close>

theorem splitter_partitions_witness:
  "split_kanji_by_jlpt_level ascii_lower (Loaded (JObj scenario_d)) =
     SplitWrote
       [(ascii ''kanji-jlpt-n5.json'', JObj [(key_kanji, JArr [record_n5])]),
        (ascii ''kanji-jlpt-n4.json'', JObj [(key_kanji, JArr [])]),
        (ascii ''kanji-jlpt-n3.json'', JObj [(key_kanji, JArr [record_n3])]),
        (ascii ''kanji-jlpt-n2.json'', JObj [(key_kanji, JArr [])]),
        (ascii ''kanji-jlpt-n1.json'', JObj [(key_kanji, JArr [])])]
   \<and> split_kanji_by_jlpt_level ascii_lower
         (Loaded (JObj [(ascii ''title'', JStr (ascii ''N5'')), (key_kanji, JArr [])]))
       = SplitReturned
   \<and> key_kanji \<notin> fst ` set [(ascii ''title'', JStr (ascii ''N5''))]
   \<and> split_kanji_by_jlpt_level ascii_lower (Loaded (JObj [(ascii ''title'', JStr (ascii ''N5''))]))
       = SplitReturned
   \<and> files_written
         (split_kanji_by_jlpt_level ascii_lower (Loaded (JObj [(ascii ''title'', JStr (ascii ''N5''))])))
       = []"
proof -
  have ne: "[record_n5, record_n3, record_unknown] \<noteq> []" by simp
  have m: "ascii ''jlptn5'' \<noteq> ascii ''jlptn3''" "ascii ''jlptn5'' \<noteq> ascii ''unknown''"
    "ascii ''jlptn5'' \<noteq> ascii ''jlptn4''" "ascii ''jlptn5'' \<noteq> ascii ''jlptn2''"
    "ascii ''jlptn5'' \<noteq> ascii ''jlptn1''" "ascii ''jlptn3'' \<noteq> ascii ''jlptn4''"
    "ascii ''jlptn3'' \<noteq> ascii ''jlptn2''" "ascii ''jlptn3'' \<noteq> ascii ''jlptn1''"
    "ascii ''jlptn3'' \<noteq> ascii ''jlptn5''"
    "ascii ''unknown'' \<noteq> ascii ''jlptn5''" "ascii ''unknown'' \<noteq> ascii ''jlptn4''"
    "ascii ''unknown'' \<noteq> ascii ''jlptn3''" "ascii ''unknown'' \<noteq> ascii ''jlptn2''"
    "ascii ''unknown'' \<noteq> ascii ''jlptn1''"
    by (simp_all add: ascii_def)
  note d = splitter_partitions [of scenario_d ascii_lower]
  from d scenario_d_kanji ne scenario_d_categorised
  have "split_kanji_by_jlpt_level ascii_lower (Loaded (JObj scenario_d)) =
        SplitWrote
          (map (\<lambda>(category_key, output_filename).
                  (output_filename,
                   JObj [(key_kanji,
                          JArr (filter (matches ascii_lower category_key)
                                  [record_n5, record_n3, record_unknown]))]))
             output_filenames)"
    by blast
  then have a: "split_kanji_by_jlpt_level ascii_lower (Loaded (JObj scenario_d)) =
     SplitWrote
       [(ascii ''kanji-jlpt-n5.json'', JObj [(key_kanji, JArr [record_n5])]),
        (ascii ''kanji-jlpt-n4.json'', JObj [(key_kanji, JArr [])]),
        (ascii ''kanji-jlpt-n3.json'', JObj [(key_kanji, JArr [record_n3])]),
        (ascii ''kanji-jlpt-n2.json'', JObj [(key_kanji, JArr [])]),
        (ascii ''kanji-jlpt-n1.json'', JObj [(key_kanji, JArr [])])]"
    by (simp add: output_filenames_def matches_def scenario_d_categories m)
  have e: "dict_get [(ascii ''title'', JStr (ascii ''N5'')), (key_kanji, JArr [])] key_kanji (JArr [])
             = JArr []"
    by (simp add: dict_get_def key_kanji_def ascii_def)
  from splitter_partitions
         [of "[(ascii ''title'', JStr (ascii ''N5'')), (key_kanji, JArr [])]" ascii_lower] e
  have b: "split_kanji_by_jlpt_level ascii_lower
             (Loaded (JObj [(ascii ''title'', JStr (ascii ''N5'')), (key_kanji, JArr [])]))
           = SplitReturned"
    by blast
  have k: "key_kanji \<notin> fst ` set [(ascii ''title'', JStr (ascii ''N5''))]"
    by (simp add: key_kanji_def ascii_def)
  from splitter_partitions [of "[(ascii ''title'', JStr (ascii ''N5''))]" ascii_lower] k
  have c: "split_kanji_by_jlpt_level ascii_lower (Loaded (JObj [(ascii ''title'', JStr (ascii ''N5''))]))
             = SplitReturned
           \<and> files_written
               (split_kanji_by_jlpt_level ascii_lower
                  (Loaded (JObj [(ascii ''title'', JStr (ascii ''N5''))])))
             = []"
    by blast
  from a b k c show ?thesis by blast
qed

text \<open>
  Claim C10 as worded fails for the parseable dataset \<open>{"kanji": []}\<close>: the guard
  \<open>if not kanji_list\<close> returns before any file is written.
\<close>

theorem splitter_empty_counterexample:
  "split_kanji_by_jlpt_level ascii_lower (Loaded (JObj [(key_kanji, JArr [])])) = SplitReturned
   \<and> files_written (split_kanji_by_jlpt_level ascii_lower (Loaded (JObj [(key_kanji, JArr [])]))) = []"
  by (simp add: split_kanji_by_jlpt_level_def dict_get_def files_written_def)

end
